theory Spec2Isabelle
  imports Complex_Main
begin

section \<open>The PitchToMidi sketch\<close>

text \<open>
  The sketch \<^verbatim>\<open>PitchToMidi.ino\<close> reads an FFT spectrum, picks the loudest band and
  looks the band's low edge up in the table \<^verbatim>\<open>pitchFrequency\<close> of the MIDIUSB library.

  Conventions of the embedding.
  \<^item> The table \<^verbatim>\<open>pitchFrequency\<close> comes from a header outside the repository, so it
    is a parameter of every function that reads it: a list of reals. A read at an index
    beyond the list is undefined behaviour in C; the loops below return \<open>None\<close> there.
  \<^item> C's \<^verbatim>\<open>int\<close> is \<open>int\<close>, C's \<^verbatim>\<open>float\<close> is \<open>real\<close>: rounding of the floating
    point subtraction and the range of \<^verbatim>\<open>int\<close> (32 bits on the boards the sketch names)
    are not modelled.
  \<^item> \<^verbatim>\<open>Serial.print\<close> appends to a list of printed items.
\<close>

subsection \<open>Conversions and constants\<close>

text \<open>The conversion of a floating value to \<^verbatim>\<open>int\<close> discards the fraction (towards zero).\<close>

definition c_trunc :: "real \<Rightarrow> int" where
  "c_trunc r = (if 0 \<le> r then \<lfloor>r\<rfloor> else \<lceil>r\<rceil>)"

definition sampleRate :: int where
  "sampleRate = 8400"

definition fftSize :: int where
  "fftSize = 128"

definition spectrumSize :: nat where
  "spectrumSize = nat (fftSize div 2)"

definition threshold :: int where
  "threshold = 150000"

datatype serial_item = PrintFloat real | PrintInt int | PrintStr string

subsection \<open>findMidiNoteFromPitches\<close>

record finder_state =
  lastDiff :: int
  desiredMidiNote :: int
  serialOut :: "serial_item list"

definition finder_init :: finder_state where
  "finder_init = \<lparr>lastDiff = 32000, desiredMidiNote = - 1, serialOut = []\<rparr>"

text \<open>
  One pass through the body of the \<^verbatim>\<open>for\<close> loop, at index \<open>x\<close>. The sketch's
  \<^verbatim>\<open>abs\<close> is applied to the floating difference, and the result is converted to the
  \<^verbatim>\<open>int\<close> variable \<^verbatim>\<open>diff\<close>. The assignment to \<^verbatim>\<open>lastDiff\<close> stands after the
  \<^verbatim>\<open>if\<close>, so it happens in every pass.

  The subtraction is exact here. The sketch subtracts in the floating type of the table's
  elements, which the sources at hand do not fix, and rounds the result before the
  conversion. Rounding is monotone, so it keeps the order of the differences of an
  ascending table, but at bounds far above the entries it can make two differences equal
  or move one by more than a unit. The conversion to \<^verbatim>\<open>int\<close> is taken to be in range.
\<close>

definition finder_body :: "real list \<Rightarrow> int \<Rightarrow> int \<Rightarrow> nat \<Rightarrow> finder_state \<Rightarrow> finder_state" where
  "finder_body pitchFrequency lowPitch highPitch x s =
     (let s1 = (if pitchFrequency ! x \<ge> of_int lowPitch \<and> pitchFrequency ! x \<le> of_int highPitch
                then s\<lparr>serialOut := serialOut s @ [PrintFloat (pitchFrequency ! x)]\<rparr>
                else s);
          diff = c_trunc \<bar>of_int lowPitch - pitchFrequency ! x\<bar>;
          s2 = (if diff < lastDiff s1 then s1\<lparr>desiredMidiNote := int x\<rparr> else s1)
      in s2\<lparr>lastDiff := diff\<rparr>)"

function finder_loop :: "real list \<Rightarrow> int \<Rightarrow> int \<Rightarrow> nat \<Rightarrow> finder_state \<Rightarrow> finder_state option" where
  "finder_loop pitchFrequency lowPitch highPitch x s =
     (if x < 127 then
        (if x < length pitchFrequency
         then finder_loop pitchFrequency lowPitch highPitch (Suc x)
                (finder_body pitchFrequency lowPitch highPitch x s)
         else None)
      else Some s)"
  by pat_completeness auto

termination
  by (relation "measure (\<lambda>(pf, lo, hi, x, s). 127 - x)") auto

declare finder_loop.simps [simp del]

text \<open>The function returns the note; what it printed on the way is the second component.\<close>

definition findMidiNoteFromPitches :: "real list \<Rightarrow> int \<Rightarrow> int \<Rightarrow> (int \<times> serial_item list) option" where
  "findMidiNoteFromPitches pitchFrequency lowPitch highPitch =
     map_option (\<lambda>s. (desiredMidiNote s, serialOut s))
       (finder_loop pitchFrequency lowPitch highPitch 0 finder_init)"

subsection \<open>loop\<close>

record band_state =
  loudestSample :: int
  freqLow :: real
  freqHigh :: real

definition band_init :: band_state where
  "band_init = \<lparr>loudestSample = 0, freqLow = 0, freqHigh = 0\<rparr>"

definition band_body :: "int list \<Rightarrow> nat \<Rightarrow> band_state \<Rightarrow> band_state" where
  "band_body spectrum b s =
     (if spectrum ! b \<ge> loudestSample s
      then s\<lparr>loudestSample := spectrum ! b,
             freqLow := (real b * real_of_int sampleRate) / real_of_int fftSize,
             freqHigh := (real (b + 1) * real_of_int sampleRate) / real_of_int fftSize\<rparr>
      else s)"

function band_loop :: "int list \<Rightarrow> nat \<Rightarrow> band_state \<Rightarrow> band_state option" where
  "band_loop spectrum b s =
     (if b < spectrumSize then
        (if b < length spectrum
         then band_loop spectrum (Suc b) (band_body spectrum b s)
         else None)
      else Some s)"
  by pat_completeness auto

termination
  by (relation "measure (\<lambda>(sp, b, s). spectrumSize - b)") auto

declare band_loop.simps [simp del]

text \<open>
  What \<^verbatim>\<open>loop\<close> does once the scan is over: nothing unless the loudest sample is above
  the threshold; otherwise it prints the band, calls the finder with the band's edges
  (converted to \<^verbatim>\<open>int\<close> at the call, since the finder's parameters are \<^verbatim>\<open>int\<close>) and
  prints the note. The source line of the call starts with a stray \<^verbatim>\<open>/\<close>; it is read
  here without it.
\<close>

definition report :: "real list \<Rightarrow> band_state \<Rightarrow> serial_item list option" where
  "report pitchFrequency s =
     (if loudestSample s > threshold then
        (case findMidiNoteFromPitches pitchFrequency (c_trunc (freqLow s)) (c_trunc (freqHigh s)) of
           None \<Rightarrow> None
         | Some (closestNote, printed) \<Rightarrow>
             Some ([PrintFloat (freqLow s), PrintStr '' '', PrintFloat (freqHigh s),
                    PrintStr ''    '', PrintInt (loudestSample s), PrintStr ''    '']
                   @ printed @ [PrintInt closestNote]))
      else Some [])"

text \<open>\<open>available\<close> is the answer of \<^verbatim>\<open>fftAnalyzer.available()\<close>, \<open>spectrum\<close> what
  \<^verbatim>\<open>fftAnalyzer.read\<close> stored.\<close>

definition loop :: "real list \<Rightarrow> bool \<Rightarrow> int list \<Rightarrow> serial_item list option" where
  "loop pitchFrequency available spectrum =
     (if available then
        (case band_loop spectrum 0 band_init of
           None \<Rightarrow> None
         | Some s \<Rightarrow> report pitchFrequency s)
      else Some [])"

subsection \<open>Auxiliary definitions\<close>

text \<open>The state of each loop after its first \<open>n\<close> passes.\<close>

primrec finder_iter :: "real list \<Rightarrow> int \<Rightarrow> int \<Rightarrow> nat \<Rightarrow> finder_state" where
  "finder_iter pf lo hi 0 = finder_init"
| "finder_iter pf lo hi (Suc n) = finder_body pf lo hi n (finder_iter pf lo hi n)"

primrec band_iter :: "int list \<Rightarrow> nat \<Rightarrow> band_state" where
  "band_iter sp 0 = band_init"
| "band_iter sp (Suc n) = band_body sp n (band_iter sp n)"

text \<open>The integer difference the finder computes for a table entry.\<close>

definition idiff :: "int \<Rightarrow> real \<Rightarrow> int" where
  "idiff lo p = c_trunc \<bar>of_int lo - p\<bar>"

text \<open>The value of \<^verbatim>\<open>lastDiff\<close> when index \<open>x\<close> is examined.\<close>

definition prevDiff :: "real list \<Rightarrow> int \<Rightarrow> nat \<Rightarrow> int" where
  "prevDiff pf lo x = (if x = 0 then 32000 else idiff lo (pf ! (x - 1)))"

text \<open>Index \<open>x\<close> becomes the candidate when it is examined.\<close>

definition recorded :: "real list \<Rightarrow> int \<Rightarrow> nat \<Rightarrow> bool" where
  "recorded pf lo x = (idiff lo (pf ! x) < prevDiff pf lo x)"

subsection \<open>Concrete inputs\<close>

text \<open>
  \<open>scenario_table\<close> is the table of the specification's first scenario: 0, 100, 200, ...,
  12600. The other tables have 127 entries too; the text at their use says which of them
  are ascending. \<open>band_of M b\<close> is the state of the band scan that holds the amplitude \<open>M\<close>
  and the edges of band \<open>b\<close>.
\<close>

definition scenario_table :: "real list" where
  "scenario_table = map (\<lambda>i. real (100 * i)) [0..<127]"

definition trunc_table :: "real list" where
  "trunc_table = map (\<lambda>i. if i = 0 then 19 / 2 else if i = 1 then 10 else real (100 * (i - 1))) [0..<127]"

definition tie_table :: "real list" where
  "tie_table = map (\<lambda>i. if i = 1 then 60 else 50) [0..<127]"

definition dip_table :: "real list" where
  "dip_table = map (\<lambda>i. if i = 0 then 0 else if i = 1 then 100 else 50) [0..<127]"

definition close_table :: "real list" where
  "close_table = map (\<lambda>i. if i = 125 then 50001 / 4 else if i = 126 then 25001 / 2 else real (100 * i)) [0..<127]"

definition near_table :: "real list" where
  "near_table = map (\<lambda>i. if i = 0 then 89 / 10 else if i = 1 then 91 / 10 else real (100 * (i - 1))) [0..<127]"

definition band_of :: "int \<Rightarrow> nat \<Rightarrow> band_state" where
  "band_of M b = \<lparr>loudestSample = M,
     freqLow = (real b * real_of_int sampleRate) / real_of_int fftSize,
     freqHigh = (real (b + 1) * real_of_int sampleRate) / real_of_int fftSize\<rparr>"

definition tied_spectrum :: "int list" where
  "tied_spectrum = (replicate 64 0)[5 := 200000, 9 := 200000]"

section \<open>Properties of the scan\<close>

lemma idiff_floor: "idiff lo p = \<lfloor>\<bar>of_int lo - p\<bar>\<rfloor>"
  by (simp add: idiff_def c_trunc_def)

lemma idiff_nonneg: "0 \<le> idiff lo p"
  by (simp add: idiff_floor)

lemma finder_loop_iter:
  assumes "127 \<le> length pf" and "x \<le> 127"
  shows "finder_loop pf lo hi x (finder_iter pf lo hi x) = Some (finder_iter pf lo hi 127)"
  using assms(2)
proof (induction k \<equiv> "127 - x" arbitrary: x)
  case 0
  then have "x = 127" by simp
  then show ?case by (simp add: finder_loop.simps)
next
  case (Suc k)
  then have lt: "x < 127" and k: "k = 127 - Suc x" by simp_all
  from lt assms(1) have "x < length pf" by simp
  with lt have "finder_loop pf lo hi x (finder_iter pf lo hi x)
      = finder_loop pf lo hi (Suc x) (finder_iter pf lo hi (Suc x))"
    by (subst finder_loop.simps) simp
  also have "\<dots> = Some (finder_iter pf lo hi 127)"
    using Suc.hyps(1) [OF k] lt by simp
  finally show ?case .
qed

lemma finder_loop_run:
  "127 \<le> length pf \<Longrightarrow> finder_loop pf lo hi 0 finder_init = Some (finder_iter pf lo hi 127)"
  using finder_loop_iter [of pf 0 lo hi] by simp

lemma findMidiNoteFromPitches_iter:
  "127 \<le> length pf \<Longrightarrow>
   findMidiNoteFromPitches pf lo hi =
     Some (desiredMidiNote (finder_iter pf lo hi 127), serialOut (finder_iter pf lo hi 127))"
  by (simp add: findMidiNoteFromPitches_def finder_loop_run)

lemma lastDiff_iter: "lastDiff (finder_iter pf lo hi n) = prevDiff pf lo n"
  by (cases n) (simp_all add: finder_init_def finder_body_def prevDiff_def idiff_def Let_def)

lemma note_iter_Suc:
  "desiredMidiNote (finder_iter pf lo hi (Suc n)) =
     (if recorded pf lo n then int n else desiredMidiNote (finder_iter pf lo hi n))"
proof -
  have "lastDiff (finder_iter pf lo hi n) = prevDiff pf lo n" by (rule lastDiff_iter)
  then show ?thesis
    by (simp add: finder_body_def recorded_def idiff_def Let_def)
qed

lemma note_iter_none:
  "(\<forall>x<n. \<not> recorded pf lo x) \<Longrightarrow> desiredMidiNote (finder_iter pf lo hi n) = - 1"
proof (induction n)
  case 0
  show ?case by (simp add: finder_init_def)
next
  case (Suc n)
  then show ?case by (simp add: note_iter_Suc del: finder_iter.simps)
qed

lemma note_iter_last:
  "m < n \<Longrightarrow> recorded pf lo m \<Longrightarrow> (\<forall>x. m < x \<and> x < n \<longrightarrow> \<not> recorded pf lo x) \<Longrightarrow>
   desiredMidiNote (finder_iter pf lo hi n) = int m"
proof (induction n)
  case 0
  then show ?case by simp
next
  case (Suc n)
  show ?case
  proof (cases "m = n")
    case True
    with Suc.prems show ?thesis by (simp add: note_iter_Suc del: finder_iter.simps)
  next
    case False
    with Suc.prems have "m < n" by simp
    moreover from Suc.prems \<open>m < n\<close> have "\<not> recorded pf lo n" by simp
    ultimately show ?thesis
      using Suc by (simp add: note_iter_Suc del: finder_iter.simps)
  qed
qed

lemma note_iter_cases:
  "(desiredMidiNote (finder_iter pf lo hi n) = - 1 \<and> (\<forall>x<n. \<not> recorded pf lo x)) \<or>
   (\<exists>m<n. desiredMidiNote (finder_iter pf lo hi n) = int m \<and> recorded pf lo m \<and>
      (\<forall>x. m < x \<and> x < n \<longrightarrow> \<not> recorded pf lo x))"
proof (induction n)
  case 0
  show ?case by (simp add: finder_init_def)
next
  case (Suc n)
  show ?case
  proof (cases "recorded pf lo n")
    case True
    then have "desiredMidiNote (finder_iter pf lo hi (Suc n)) = int n"
      by (simp add: note_iter_Suc del: finder_iter.simps)
    with True show ?thesis by auto
  next
    case False
    then have eq: "desiredMidiNote (finder_iter pf lo hi (Suc n)) = desiredMidiNote (finder_iter pf lo hi n)"
      by (simp add: note_iter_Suc del: finder_iter.simps)
    from Suc show ?thesis
    proof
      assume "desiredMidiNote (finder_iter pf lo hi n) = - 1 \<and> (\<forall>x<n. \<not> recorded pf lo x)"
      with False eq show ?thesis by (auto simp: less_Suc_eq)
    next
      assume "\<exists>m<n. desiredMidiNote (finder_iter pf lo hi n) = int m \<and> recorded pf lo m \<and>
        (\<forall>x. m < x \<and> x < n \<longrightarrow> \<not> recorded pf lo x)"
      then obtain m where "m < n" "desiredMidiNote (finder_iter pf lo hi n) = int m" "recorded pf lo m"
        "\<forall>x. m < x \<and> x < n \<longrightarrow> \<not> recorded pf lo x" by blast
      with False eq have "m < Suc n \<and> desiredMidiNote (finder_iter pf lo hi (Suc n)) = int m \<and> recorded pf lo m \<and>
        (\<forall>x. m < x \<and> x < Suc n \<longrightarrow> \<not> recorded pf lo x)" by (auto simp: less_Suc_eq)
      then show ?thesis by blast
    qed
  qed
qed

lemma note_iter_hi: "desiredMidiNote (finder_iter pf lo h1 n) = desiredMidiNote (finder_iter pf lo h2 n)"
  by (induction n) (simp_all add: note_iter_Suc del: finder_iter.simps, simp)

lemma serial_iter:
  "n \<le> length pf \<Longrightarrow>
   serialOut (finder_iter pf lo hi n) =
     map PrintFloat (filter (\<lambda>p. of_int lo \<le> p \<and> p \<le> of_int hi) (take n pf))"
proof (induction n)
  case 0
  show ?case by (simp add: finder_init_def)
next
  case (Suc n)
  then have "n < length pf" by simp
  then have "take (Suc n) pf = take n pf @ [pf ! n]" by (rule take_Suc_conv_app_nth)
  with Suc show ?case by (simp add: finder_body_def Let_def)
qed

lemma finder_loop_short:
  "length pf < 127 \<Longrightarrow> x \<le> length pf \<Longrightarrow> finder_loop pf lo hi x s = None"
proof (induction k \<equiv> "length pf - x" arbitrary: x s)
  case 0
  then show ?case by (subst finder_loop.simps) simp
next
  case (Suc k)
  then have "x < length pf" "x < 127" "k = length pf - Suc x" by simp_all
  then show ?case using Suc.hyps(1) [of "Suc x"] Suc.prems
    by (subst finder_loop.simps) simp
qed

lemma finder_iter_fold: "finder_iter pf lo hi n = fold (finder_body pf lo hi) [0..<n] finder_init"
  by (induction n) simp_all

lemma idiff_mono: "\<bar>of_int lo - p\<bar> \<le> \<bar>of_int lo - q\<bar> \<Longrightarrow> idiff lo p \<le> idiff lo q"
  by (simp add: idiff_floor floor_mono)

lemma first_min_exists:
  fixes d :: "nat \<Rightarrow> int"
  shows "\<exists>m<Suc n. (\<forall>x<Suc n. d m \<le> d x) \<and> (\<forall>x<m. d m < d x)"
proof (induction n)
  case 0
  show ?case by simp
next
  case (Suc n)
  then obtain m where m: "m < Suc n" "\<forall>x<Suc n. d m \<le> d x" "\<forall>x<m. d m < d x" by blast
  show ?case
  proof (cases "d (Suc n) < d m")
    case True
    have "\<forall>x<Suc (Suc n). d (Suc n) \<le> d x"
    proof (intro allI impI)
      fix x assume "x < Suc (Suc n)"
      then consider "x = Suc n" | "x < Suc n" by (auto simp: less_Suc_eq)
      then show "d (Suc n) \<le> d x"
      proof cases
        case 1 then show ?thesis by simp
      next
        case 2 with m(2) True show ?thesis by force
      qed
    qed
    moreover have "\<forall>x<Suc n. d (Suc n) < d x" using m(2) True by force
    ultimately show ?thesis by blast
  next
    case False
    have "\<forall>x<Suc (Suc n). d m \<le> d x"
    proof (intro allI impI)
      fix x assume "x < Suc (Suc n)"
      then consider "x = Suc n" | "x < Suc n" by (auto simp: less_Suc_eq)
      then show "d m \<le> d x"
      proof cases
        case 1 with False show ?thesis by simp
      next
        case 2 with m(2) show ?thesis by simp
      qed
    qed
    with m(1,3) show ?thesis by (meson less_Suc_eq)
  qed
qed

lemma sorted_no_later_record:
  assumes srt: "sorted pf" and n: "n \<le> length pf"
    and m: "\<forall>x<n. idiff lo (pf ! m) \<le> idiff lo (pf ! x)"
    and x: "m < x" "x < n"
  shows "\<not> recorded pf lo x"
proof -
  from x n have xl: "x < length pf" and x1: "x - 1 < n" and x0: "x \<noteq> 0" by simp_all
  have le1: "pf ! (x - 1) \<le> pf ! x" using srt xl by (simp add: sorted_iff_nth_mono)
  have lem: "pf ! m \<le> pf ! (x - 1)" using srt xl x by (simp add: sorted_iff_nth_mono)
  have "idiff lo (pf ! (x - 1)) \<le> idiff lo (pf ! x)"
  proof (cases "of_int lo \<le> pf ! (x - 1)")
    case True
    with le1 show ?thesis by (intro idiff_mono) simp
  next
    case False
    with lem have "idiff lo (pf ! (x - 1)) \<le> idiff lo (pf ! m)" by (intro idiff_mono) simp
    also have "\<dots> \<le> idiff lo (pf ! x)" using m x(2) by simp
    finally show ?thesis .
  qed
  with x0 show ?thesis by (simp add: recorded_def prevDiff_def)
qed

lemma first_min_recorded:
  assumes first: "m = 0 \<Longrightarrow> idiff lo (pf ! 0) < 32000"
    and m: "\<forall>x<m. idiff lo (pf ! m) < idiff lo (pf ! x)"
  shows "recorded pf lo m"
proof (cases "m = 0")
  case True
  with first show ?thesis by (simp add: recorded_def prevDiff_def)
next
  case False
  then have "m - 1 < m" by simp
  with m have "idiff lo (pf ! m) < idiff lo (pf ! (m - 1))" by blast
  with False show ?thesis by (simp add: recorded_def prevDiff_def)
qed

lemma sorted_scan:
  assumes "sorted pf" "n \<le> length pf" "m = 0 \<Longrightarrow> idiff lo (pf ! 0) < 32000"
    and "m < n" "\<forall>x<n. idiff lo (pf ! m) \<le> idiff lo (pf ! x)"
        "\<forall>x<m. idiff lo (pf ! m) < idiff lo (pf ! x)"
  shows "desiredMidiNote (finder_iter pf lo hi n) = int m"
proof (rule note_iter_last)
  show "m < n" by fact
  show "recorded pf lo m" using assms(3,6) by (rule first_min_recorded)
  show "\<forall>x. m < x \<and> x < n \<longrightarrow> \<not> recorded pf lo x"
    using sorted_no_later_record [OF assms(1,2,5)] by blast
qed

lemma sorted_scan_none:
  assumes "sorted pf" "n \<le> length pf" "32000 \<le> idiff lo (pf ! 0)"
    and "\<forall>x<n. idiff lo (pf ! 0) \<le> idiff lo (pf ! x)"
  shows "desiredMidiNote (finder_iter pf lo hi n) = - 1"
proof (rule note_iter_none, intro allI impI)
  fix x assume "x < n"
  show "\<not> recorded pf lo x"
  proof (cases "x = 0")
    case True
    with assms(3) show ?thesis by (simp add: recorded_def prevDiff_def)
  next
    case False
    then have "0 < x" by simp
    with sorted_no_later_record [OF assms(1,2,4)] \<open>x < n\<close> show ?thesis by blast
  qed
qed

lemma finder_note_last:
  "127 \<le> length pf \<Longrightarrow> m < 127 \<Longrightarrow> recorded pf lo m \<Longrightarrow>
   (\<forall>x. m < x \<and> x < 127 \<longrightarrow> \<not> recorded pf lo x) \<Longrightarrow>
   map_option fst (findMidiNoteFromPitches pf lo hi) = Some (int m)"
  by (simp add: findMidiNoteFromPitches_iter note_iter_last)

lemma finder_note_none:
  "127 \<le> length pf \<Longrightarrow> (\<forall>x<127. \<not> recorded pf lo x) \<Longrightarrow>
   map_option fst (findMidiNoteFromPitches pf lo hi) = Some (- 1)"
  by (simp add: findMidiNoteFromPitches_iter note_iter_none)

lemma finder_output:
  "127 \<le> length pf \<Longrightarrow>
   map_option snd (findMidiNoteFromPitches pf lo hi) =
     Some (map PrintFloat (filter (\<lambda>p. of_int lo \<le> p \<and> p \<le> of_int hi) (take 127 pf)))"
  by (simp add: findMidiNoteFromPitches_iter serial_iter)

lemma idiff_of_int: "idiff lo (of_int k) = \<bar>lo - k\<bar>"
proof -
  have "\<bar>of_int lo - (of_int k :: real)\<bar> = of_int \<bar>lo - k\<bar>" by simp
  then show ?thesis unfolding idiff_floor by (simp only: floor_of_int)
qed

lemma idiff_real: "idiff lo (real k) = \<bar>lo - int k\<bar>"
  using idiff_of_int [of lo "int k"] by simp

lemma idiff_numeral: "idiff lo (numeral n) = \<bar>lo - numeral n\<bar>"
  using idiff_of_int [of lo "numeral n"] by simp

lemma idiff_zero: "idiff lo 0 = \<bar>lo\<bar>"
  using idiff_of_int [of lo 0] by simp

lemma length_scenario_table: "length scenario_table = 127"
  by (simp add: scenario_table_def)

lemma nth_scenario_table: "x < 127 \<Longrightarrow> scenario_table ! x = real (100 * x)"
  by (simp add: scenario_table_def)

lemma sorted_scenario_table: "sorted scenario_table"
  by (simp add: sorted_iff_nth_mono length_scenario_table nth_scenario_table)

lemma recorded_scenario_table:
  "x < 127 \<Longrightarrow> recorded scenario_table lo x =
     (\<bar>lo - int (100 * x)\<bar> < (if x = 0 then 32000 else \<bar>lo - int (100 * (x - 1))\<bar>))"
  by (simp add: recorded_def prevDiff_def nth_scenario_table idiff_real del: of_nat_mult of_nat_diff)

lemma scenario_low_minus_32000:
  "map_option fst (findMidiNoteFromPitches scenario_table (- 32000) (- 31990)) = Some (- 1)"
proof (rule finder_note_none)
  show "127 \<le> length scenario_table" by (simp add: length_scenario_table)
  show "\<forall>x<127. \<not> recorded scenario_table (- 32000) x"
    by (auto simp: recorded_scenario_table)
qed

lemma scenario_low_250:
  "map_option fst (findMidiNoteFromPitches scenario_table 250 260) = Some 2"
proof -
  have "map_option fst (findMidiNoteFromPitches scenario_table 250 260) = Some (int 2)"
  proof (rule finder_note_last)
    show "127 \<le> length scenario_table" by (simp add: length_scenario_table)
    show "(2::nat) < 127" by simp
    show "recorded scenario_table 250 2" by (simp add: recorded_scenario_table)
    show "\<forall>x. 2 < x \<and> x < 127 \<longrightarrow> \<not> recorded scenario_table 250 x"
      by (auto simp: recorded_scenario_table)
  qed
  then show ?thesis by simp
qed

lemma idiff_half: "idiff 10 (19 / 2) = 0" "idiff 10 10 = 0" "idiff 10 (89 / 10) = 1" "idiff 10 (91 / 10) = 0"
  "idiff 10 100 = 90"
  by (simp_all add: idiff_floor)

lemma length_trunc_table: "length trunc_table = 127"
  by (simp add: trunc_table_def)

lemma nth_trunc_table:
  "x < 127 \<Longrightarrow> trunc_table ! x = (if x = 0 then 19 / 2 else if x = 1 then 10 else real (100 * (x - 1)))"
  by (simp add: trunc_table_def)

lemma recorded_step100:
  assumes "2 \<le> x" "x < 127" "pf ! x = real (100 * (x - 1))"
    and "pf ! (x - 1) = (if x = 2 then p else real (100 * (x - 2)))" "idiff 10 p \<le> 90"
  shows "\<not> recorded pf 10 x"
proof (cases "x = 2")
  case True
  with assms show ?thesis by (simp add: recorded_def prevDiff_def idiff_half)
next
  case False
  with assms have "3 \<le> x" by simp
  with assms False show ?thesis
    by (simp add: recorded_def prevDiff_def idiff_real del: of_nat_mult of_nat_diff)
qed

lemma trunc_table_low_10:
  "map_option fst (findMidiNoteFromPitches trunc_table 10 11) = Some 0"
proof -
  have "map_option fst (findMidiNoteFromPitches trunc_table 10 11) = Some (int 0)"
  proof (rule finder_note_last)
    show "127 \<le> length trunc_table" by (simp add: length_trunc_table)
    show "(0::nat) < 127" by simp
    show "recorded trunc_table 10 0"
      by (simp add: recorded_def prevDiff_def nth_trunc_table idiff_half)
    show "\<forall>x. 0 < x \<and> x < 127 \<longrightarrow> \<not> recorded trunc_table 10 x"
    proof (intro allI impI)
      fix x :: nat assume x: "0 < x \<and> x < 127"
      show "\<not> recorded trunc_table 10 x"
      proof (cases "x = 1")
        case True
        then show ?thesis by (simp add: recorded_def prevDiff_def nth_trunc_table idiff_half)
      next
        case False
        with x have "2 \<le> x" by simp
        then show ?thesis using x
          by (intro recorded_step100 [where p = 10]) (auto simp: nth_trunc_table idiff_half)
      qed
    qed
  qed
  then show ?thesis by simp
qed

lemma length_near_table: "length near_table = 127"
  by (simp add: near_table_def)

lemma nth_near_table:
  "x < 127 \<Longrightarrow> near_table ! x = (if x = 0 then 89 / 10 else if x = 1 then 91 / 10 else real (100 * (x - 1)))"
  by (simp add: near_table_def)

lemma near_table_low_10:
  "map_option fst (findMidiNoteFromPitches near_table 10 11) = Some 1"
proof -
  have "map_option fst (findMidiNoteFromPitches near_table 10 11) = Some (int 1)"
  proof (rule finder_note_last)
    show "127 \<le> length near_table" by (simp add: length_near_table)
    show "(1::nat) < 127" by simp
    show "recorded near_table 10 1"
      by (simp add: recorded_def prevDiff_def nth_near_table idiff_half)
    show "\<forall>x. 1 < x \<and> x < 127 \<longrightarrow> \<not> recorded near_table 10 x"
    proof (intro allI impI)
      fix x :: nat assume x: "1 < x \<and> x < 127"
      then have "2 \<le> x" by simp
      then show "\<not> recorded near_table 10 x" using x
        by (intro recorded_step100 [where p = "91 / 10"]) (auto simp: nth_near_table idiff_half)
    qed
  qed
  then show ?thesis by simp
qed

lemma length_tie_table: "length tie_table = 127"
  by (simp add: tie_table_def)

lemma nth_tie_table: "x < 127 \<Longrightarrow> tie_table ! x = (if x = 1 then 60 else 50)"
  by (simp add: tie_table_def)

lemma idiff_0: "idiff 0 50 = 50" "idiff 0 60 = 60" "idiff 0 100 = 100" "idiff 0 0 = 0"
  by (simp_all add: idiff_floor)

lemma tie_table_low_0:
  "map_option fst (findMidiNoteFromPitches tie_table 0 0) = Some 2"
proof -
  have "map_option fst (findMidiNoteFromPitches tie_table 0 0) = Some (int 2)"
  proof (rule finder_note_last)
    show "127 \<le> length tie_table" by (simp add: length_tie_table)
    show "(2::nat) < 127" by simp
    show "recorded tie_table 0 2"
      by (simp add: recorded_def prevDiff_def nth_tie_table idiff_0)
    show "\<forall>x. 2 < x \<and> x < 127 \<longrightarrow> \<not> recorded tie_table 0 x"
      by (auto simp: recorded_def prevDiff_def nth_tie_table idiff_0 split: if_splits)
  qed
  then show ?thesis by simp
qed

lemma length_dip_table: "length dip_table = 127"
  by (simp add: dip_table_def)

lemma nth_dip_table: "x < 127 \<Longrightarrow> dip_table ! x = (if x = 0 then 0 else if x = 1 then 100 else 50)"
  by (simp add: dip_table_def)

lemma dip_table_low_0:
  "map_option fst (findMidiNoteFromPitches dip_table 0 0) = Some 2"
proof -
  have "map_option fst (findMidiNoteFromPitches dip_table 0 0) = Some (int 2)"
  proof (rule finder_note_last)
    show "127 \<le> length dip_table" by (simp add: length_dip_table)
    show "(2::nat) < 127" by simp
    show "recorded dip_table 0 2"
      by (simp add: recorded_def prevDiff_def nth_dip_table idiff_0)
    show "\<forall>x. 2 < x \<and> x < 127 \<longrightarrow> \<not> recorded dip_table 0 x"
      by (auto simp: recorded_def prevDiff_def nth_dip_table idiff_0 split: if_splits)
  qed
  then show ?thesis by simp
qed

lemma no_record_iff:
  "(\<forall>x<n. \<not> recorded pf lo x) =
   ((0 < n \<longrightarrow> 32000 \<le> idiff lo (pf ! 0)) \<and>
    (\<forall>x. 0 < x \<and> x < n \<longrightarrow> idiff lo (pf ! (x - 1)) \<le> idiff lo (pf ! x)))"
proof -
  have "\<not> recorded pf lo x \<longleftrightarrow> (if x = 0 then 32000 \<le> idiff lo (pf ! 0)
      else idiff lo (pf ! (x - 1)) \<le> idiff lo (pf ! x))" for x
    by (simp add: recorded_def prevDiff_def not_less)
  then have "(\<forall>x<n. \<not> recorded pf lo x) =
      (\<forall>x<n. if x = 0 then 32000 \<le> idiff lo (pf ! 0)
          else idiff lo (pf ! (x - 1)) \<le> idiff lo (pf ! x))"
    by simp
  also have "\<dots> = ((0 < n \<longrightarrow> 32000 \<le> idiff lo (pf ! 0)) \<and>
      (\<forall>x. 0 < x \<and> x < n \<longrightarrow> idiff lo (pf ! (x - 1)) \<le> idiff lo (pf ! x)))"
    by (auto split: if_splits)
  finally show ?thesis .
qed

lemma finder_minus_one_iff:
  assumes "127 \<le> length pf"
  shows "(map_option fst (findMidiNoteFromPitches pf lo hi) = Some (- 1)) =
         (\<forall>x<127. \<not> recorded pf lo x)"
proof -
  have eq: "map_option fst (findMidiNoteFromPitches pf lo hi) = Some (desiredMidiNote (finder_iter pf lo hi 127))"
    using assms by (simp add: findMidiNoteFromPitches_iter)
  show ?thesis
    using note_iter_cases [of pf lo hi 127] unfolding eq by auto
qed

lemma tie_table_least: "Min (idiff 0 ` set tie_table) = 50"
proof -
  have "set tie_table = {50, 60}"
  proof
    show "set tie_table \<subseteq> {50, 60}" by (auto simp: tie_table_def)
    have "tie_table ! 0 \<in> set tie_table" "tie_table ! 1 \<in> set tie_table"
      by (simp_all add: length_tie_table)
    then show "{50, 60} \<subseteq> set tie_table" by (simp add: nth_tie_table)
  qed
  then show ?thesis by (simp add: idiff_0)
qed

lemma length_close_table: "length close_table = 127"
  by (simp add: close_table_def)

lemma nth_close_table:
  "x < 127 \<Longrightarrow> close_table ! x =
     (if x = 125 then 50001 / 4 else if x = 126 then 25001 / 2 else real (100 * x))"
  by (simp add: close_table_def)

lemma idiff_close_table:
  "idiff 1000000000 (close_table ! 124) = 999987600"
  "idiff 1000000000 (close_table ! 125) = 999987499"
  "idiff 1000000000 (close_table ! 126) = 999987499"
  by (simp_all add: nth_close_table idiff_floor)

lemma close_table_low_1e9:
  "map_option fst (findMidiNoteFromPitches close_table 1000000000 1000000001) = Some 125"
proof -
  have "map_option fst (findMidiNoteFromPitches close_table 1000000000 1000000001) = Some (int 125)"
  proof (rule finder_note_last)
    show "127 \<le> length close_table" by (simp add: length_close_table)
    show "(125::nat) < 127" by simp
    show "recorded close_table 1000000000 125"
      by (simp add: recorded_def prevDiff_def idiff_close_table)
    show "\<forall>x. 125 < x \<and> x < 127 \<longrightarrow> \<not> recorded close_table 1000000000 x"
    proof (intro allI impI)
      fix x :: nat assume "125 < x \<and> x < 127"
      then have "x = 126" by simp
      then show "\<not> recorded close_table 1000000000 x"
        by (simp add: recorded_def prevDiff_def idiff_close_table)
    qed
  qed
  then show ?thesis by simp
qed

lemma finder_last_iff:
  assumes "length pf = 127"
  shows "(map_option fst (findMidiNoteFromPitches pf lo hi) = Some 126) = recorded pf lo 126"
proof
  assume "recorded pf lo 126"
  then have "map_option fst (findMidiNoteFromPitches pf lo hi) = Some (int 126)"
    using assms by (intro finder_note_last) auto
  then show "map_option fst (findMidiNoteFromPitches pf lo hi) = Some 126" by simp
next
  assume r: "map_option fst (findMidiNoteFromPitches pf lo hi) = Some 126"
  have eq: "map_option fst (findMidiNoteFromPitches pf lo hi) =
      Some (desiredMidiNote (finder_iter pf lo hi 127))"
    using assms by (simp add: findMidiNoteFromPitches_iter)
  with r have n: "desiredMidiNote (finder_iter pf lo hi 127) = 126" by simp
  from note_iter_cases [of pf lo hi 127] n
  obtain m where "m < 127" "int m = 126" "recorded pf lo m" by auto
  then show "recorded pf lo 126" by simp
qed

lemma scenario_filter:
  "filter (\<lambda>p. real_of_int lo \<le> p \<and> p \<le> real_of_int hi) scenario_table =
   map (\<lambda>i. real (100 * i)) (filter (\<lambda>i. lo \<le> int (100 * i) \<and> int (100 * i) \<le> hi) [0..<127])"
proof -
  have "real_of_int lo \<le> real (100 * i) \<longleftrightarrow> lo \<le> int (100 * i)" for i
    by linarith
  moreover have "real (100 * i) \<le> real_of_int hi \<longleftrightarrow> int (100 * i) \<le> hi" for i
    by linarith
  ultimately show ?thesis
    by (simp add: scenario_table_def filter_map comp_def del: of_nat_mult)
qed

lemma spectrumSize_64: "spectrumSize = 64"
  by (simp add: spectrumSize_def fftSize_def)

lemma band_loop_iter:
  assumes "spectrumSize \<le> length sp" and "b \<le> spectrumSize"
  shows "band_loop sp b (band_iter sp b) = Some (band_iter sp spectrumSize)"
  using assms(2)
proof (induction k \<equiv> "spectrumSize - b" arbitrary: b)
  case 0
  then have "b = spectrumSize" by simp
  then show ?case by (simp add: band_loop.simps)
next
  case (Suc k)
  then have lt: "b < spectrumSize" and k: "k = spectrumSize - Suc b" by simp_all
  from lt assms(1) have "b < length sp" by simp
  with lt have "band_loop sp b (band_iter sp b) = band_loop sp (Suc b) (band_iter sp (Suc b))"
    by (subst band_loop.simps) simp
  also have "\<dots> = Some (band_iter sp spectrumSize)"
    using Suc.hyps(1) [OF k] lt by simp
  finally show ?case .
qed

lemma band_loop_run:
  "spectrumSize \<le> length sp \<Longrightarrow> band_loop sp 0 band_init = Some (band_iter sp spectrumSize)"
  using band_loop_iter [of sp 0] by simp

lemma band_iter_le:
  assumes "0 \<le> M" and "\<forall>i<k. sp ! i \<le> M"
  shows "loudestSample (band_iter sp k) \<le> M"
  using assms(2)
proof (induction k)
  case 0
  with assms(1) show ?case by (simp add: band_init_def)
next
  case (Suc k)
  then have "loudestSample (band_iter sp k) \<le> M" and "sp ! k \<le> M" by simp_all
  then show ?case by (simp add: band_body_def)
qed

lemma band_iter_at:
  assumes "0 \<le> M" and "\<forall>i<b. sp ! i \<le> M" and "sp ! b = M"
  shows "band_iter sp (Suc b) = band_of M b"
proof -
  have "loudestSample (band_iter sp b) \<le> sp ! b"
    using band_iter_le [OF assms(1,2)] assms(3) by simp
  then show ?thesis using assms(3) by (simp add: band_body_def band_of_def)
qed

lemma band_iter_after:
  assumes "band_iter sp (Suc b) = band_of M b" and "\<forall>i. b < i \<and> i < n \<longrightarrow> sp ! i < M"
    and "b < k" and "k \<le> n"
  shows "band_iter sp k = band_of M b"
  using assms(3,4)
proof (induction k)
  case 0
  then show ?case by simp
next
  case (Suc k)
  show ?case
  proof (cases "k = b")
    case True
    with assms(1) show ?thesis by simp
  next
    case False
    with Suc.prems have bk: "b < k" "k < n" by simp_all
    with Suc have "band_iter sp k = band_of M b" by simp
    moreover from bk assms(2) have "sp ! k < M" by simp
    ultimately show ?thesis by (simp add: band_body_def band_of_def)
  qed
qed

lemma band_scan_last_max:
  assumes "spectrumSize \<le> length sp" and "b < spectrumSize" and "sp ! b = M" and "0 \<le> M"
    and "\<forall>i<spectrumSize. sp ! i \<le> M" and "\<forall>i. b < i \<and> i < spectrumSize \<longrightarrow> sp ! i < M"
  shows "band_loop sp 0 band_init = Some (band_of M b)"
proof -
  have "\<forall>i<b. sp ! i \<le> M" using assms(2,5) by simp
  then have "band_iter sp (Suc b) = band_of M b"
    using assms(3,4) by (intro band_iter_at) simp_all
  then have "band_iter sp spectrumSize = band_of M b"
    using band_iter_after [OF _ assms(6) assms(2)] by simp
  with assms(1) show ?thesis by (simp add: band_loop_run)
qed

lemma band_of_edges:
  "band_of M b = \<lparr>loudestSample = M, freqLow = real b * 8400 / 128,
     freqHigh = real (b + 1) * 8400 / 128\<rparr>"
  by (simp add: band_of_def sampleRate_def fftSize_def)

lemma zero_spectrum_scan:
  "band_loop (replicate spectrumSize 0) 0 band_init = Some (band_of 0 (spectrumSize - 1))"
  by (rule band_scan_last_max) (auto simp: spectrumSize_64)

lemma zero_spectrum_loop: "loop pf True (replicate spectrumSize 0) = Some []"
  by (simp add: loop_def zero_spectrum_scan report_def band_of_def threshold_def)

lemma scenario_low_590:
  "findMidiNoteFromPitches scenario_table 590 656 = Some (6, [PrintFloat 600])"
proof -
  have "map_option fst (findMidiNoteFromPitches scenario_table 590 656) = Some (int 6)"
  proof (rule finder_note_last)
    show "127 \<le> length scenario_table" by (simp add: length_scenario_table)
    show "(6::nat) < 127" by simp
    show "recorded scenario_table 590 6" by (simp add: recorded_scenario_table)
    show "\<forall>x. 6 < x \<and> x < 127 \<longrightarrow> \<not> recorded scenario_table 590 x"
      by (auto simp: recorded_scenario_table)
  qed
  then have nt: "map_option fst (findMidiNoteFromPitches scenario_table 590 656) = Some 6"
    by simp
  have "[0..<127] = [0..<6] @ [6..<7] @ [7..<127]"
    using upt_add_eq_append [of 0 6 121] upt_add_eq_append [of 6 7 120] by simp
  moreover have "filter (\<lambda>i. (590::int) \<le> int (100 * i) \<and> int (100 * i) \<le> 656) [0..<6] = []"
    by (auto simp: filter_empty_conv; arith)
  moreover have "filter (\<lambda>i. (590::int) \<le> int (100 * i) \<and> int (100 * i) \<le> 656) [7..<127] = []"
    by (auto simp: filter_empty_conv; arith)
  moreover have "[6..<7] = [6]" by (simp add: upt_rec)
  ultimately have "filter (\<lambda>i. (590::int) \<le> int (100 * i) \<and> int (100 * i) \<le> 656) [0..<127] = [6]"
    by simp
  then have "filter (\<lambda>p. real_of_int 590 \<le> p \<and> p \<le> real_of_int 656) (take 127 scenario_table)
      = [600]"
    by (simp add: length_scenario_table scenario_filter del: of_int_numeral)
  then have out: "map_option snd (findMidiNoteFromPitches scenario_table 590 656) = Some [PrintFloat 600]"
    using finder_output [of scenario_table 590 656] by (simp add: length_scenario_table)
  obtain r where r: "findMidiNoteFromPitches scenario_table 590 656 = Some r"
    using nt by (cases "findMidiNoteFromPitches scenario_table 590 656") simp_all
  with nt out have "fst r = 6" "snd r = [PrintFloat 600]" by simp_all
  then have "r = (6, [PrintFloat 600])" by (cases r) simp
  with r show ?thesis by simp
qed

lemma finder_body_lastDiff: "lastDiff (finder_body pf lo hi x s) = idiff lo (pf ! x)"
  by (simp add: finder_body_def idiff_def Let_def)

lemma finder_body_note:
  "desiredMidiNote (finder_body pf lo hi x s) =
     (if idiff lo (pf ! x) < lastDiff s then int x else desiredMidiNote s)"
  by (simp add: finder_body_def idiff_def Let_def)

lemma c_trunc_int_part: "0 \<le> n \<Longrightarrow> 0 \<le> f \<Longrightarrow> f < 1 \<Longrightarrow> c_trunc (of_int n + f) = n"
proof -
  assume "0 \<le> n" "0 \<le> f" "f < 1"
  then have "\<lfloor>of_int n + f\<rfloor> = n" by (intro floor_unique) simp_all
  with \<open>0 \<le> n\<close> \<open>0 \<le> f\<close> show ?thesis by (simp add: c_trunc_def)
qed

lemma idiff_close:
  assumes "\<bar>\<bar>of_int lo - p\<bar> - \<bar>of_int lo - q\<bar>\<bar> < 1"
  shows "\<bar>idiff lo p - idiff lo q\<bar> \<le> 1"
proof -
  have "\<bar>\<lfloor>a\<rfloor> - \<lfloor>b\<rfloor>\<bar> \<le> 1" if "\<bar>a - b\<bar> < 1" for a b :: real
    using that by linarith
  from this [OF assms] show ?thesis by (simp add: idiff_floor)
qed

section \<open>The claims\<close>

text \<open>
  Claim C1, amended. The finder compares integer differences: \<open>idiff lo p\<close> is
  \<open>\<bar>lo - p\<bar>\<close> with the fraction discarded, and the difference it compares with starts at
  32000. For every ascending (non-decreasing) table of 127 entries and every integer
  \<open>lowPitch\<close>, the finder returns the first index \<open>m\<close> that attains the least integer
  difference (no index has a smaller one, every earlier index has a strictly larger one);
  only when that index is 0 and its difference is 32000 or more, the finder returns -1.
  Tables that are not ascending are left out.
\<close>

theorem C1_sorted_first_minimum:
  assumes "length pf = 127" and "sorted pf"
  shows "\<exists>m<127. (\<forall>x<127. idiff lo (pf ! m) \<le> idiff lo (pf ! x))
           \<and> (\<forall>x<m. idiff lo (pf ! m) < idiff lo (pf ! x))
           \<and> map_option fst (findMidiNoteFromPitches pf lo hi) =
               Some (if m = 0 \<and> 32000 \<le> idiff lo (pf ! 0) then - 1 else int m)"
proof -
  obtain m where m: "m < 127" "\<forall>x<127. idiff lo (pf ! m) \<le> idiff lo (pf ! x)"
      "\<forall>x<m. idiff lo (pf ! m) < idiff lo (pf ! x)"
    using first_min_exists [where d = "\<lambda>x. idiff lo (pf ! x)" and n = 126] by auto
  have "desiredMidiNote (finder_iter pf lo hi 127) =
      (if m = 0 \<and> 32000 \<le> idiff lo (pf ! 0) then - 1 else int m)"
  proof (cases "m = 0 \<and> 32000 \<le> idiff lo (pf ! 0)")
    case True
    then have "desiredMidiNote (finder_iter pf lo hi 127) = - 1"
      using assms m(2) by (intro sorted_scan_none) simp_all
    with True show ?thesis by simp
  next
    case False
    then have "desiredMidiNote (finder_iter pf lo hi 127) = int m"
      using assms m by (intro sorted_scan) auto
    with False show ?thesis by simp
  qed
  then have "map_option fst (findMidiNoteFromPitches pf lo hi) =
      Some (if m = 0 \<and> 32000 \<le> idiff lo (pf ! 0) then - 1 else int m)"
    using assms(1) by (simp add: findMidiNoteFromPitches_iter)
  with m show ?thesis by blast
qed

text \<open>
  C1 at the scenario table with \<open>lowPitch = 250\<close>: entries 200 and 300 are both 50 away, and
  the finder returns index 2.
\<close>

theorem C1_witness:
  "length scenario_table = 127 \<and> sorted scenario_table \<and>
   map_option fst (findMidiNoteFromPitches scenario_table 250 260) = Some 2"
proof -
  have h: "length scenario_table = 127" "sorted scenario_table"
    by (simp_all add: length_scenario_table sorted_scenario_table)
  from C1_sorted_first_minimum [OF h, of 250 260]
  obtain m where m: "m < 127"
      "\<forall>x<127. idiff 250 (scenario_table ! m) \<le> idiff 250 (scenario_table ! x)"
      "\<forall>x<m. idiff 250 (scenario_table ! m) < idiff 250 (scenario_table ! x)"
      "map_option fst (findMidiNoteFromPitches scenario_table 250 260) =
         Some (if m = 0 \<and> 32000 \<le> idiff 250 (scenario_table ! 0) then - 1 else int m)"
    by blast
  from m(2) have "idiff 250 (scenario_table ! m) \<le> idiff 250 (scenario_table ! 2)" by simp
  with m(1) have "\<bar>250 - int (100 * m)\<bar> \<le> 50"
    by (simp add: nth_scenario_table idiff_real idiff_numeral del: of_nat_mult)
  then have m23: "m = 2 \<or> m = 3" by (simp add: abs_le_iff) arith
  have "m \<noteq> 3"
  proof
    assume "m = 3"
    with m(3) have "idiff 250 (scenario_table ! 3) < idiff 250 (scenario_table ! 2)" by simp
    then show False by (simp add: nth_scenario_table idiff_numeral)
  qed
  with m23 have "m = 2" by simp
  with m(4) h show ?thesis by simp
qed

text \<open>
  C1 as stated fails. In the ascending table 9.5, 10, 100, 200, ..., 12500 with
  \<open>lowPitch = 10\<close> both 9.5 and 10 have the integer difference 0, the finder returns index 0,
  yet entry 1 is strictly closer to 10 than entry 0. In the table 0, 100, 50, 50, ..., 50,
  which is not ascending, with \<open>lowPitch = 0\<close> the finder returns index 2, yet entry 0 is at
  distance 0.
\<close>

theorem C1_counterexample:
  "length trunc_table = 127 \<and> sorted trunc_table \<and>
   map_option fst (findMidiNoteFromPitches trunc_table 10 11) = Some 0 \<and>
   \<bar>10 - trunc_table ! 1\<bar> < \<bar>10 - trunc_table ! 0\<bar> \<and>
   length dip_table = 127 \<and>
   map_option fst (findMidiNoteFromPitches dip_table 0 0) = Some 2 \<and>
   \<bar>0 - dip_table ! 0\<bar> < \<bar>0 - dip_table ! 2\<bar>"
proof -
  have "sorted trunc_table"
    by (auto simp: sorted_iff_nth_mono length_trunc_table nth_trunc_table)
  then show ?thesis
    by (simp add: length_trunc_table trunc_table_low_10 nth_trunc_table
        length_dip_table dip_table_low_0 nth_dip_table)
qed

text \<open>
  Claim C2, amended. In an ascending table of 127 entries, let the entries at \<open>i < j\<close> have
  the same integer difference to \<open>lowPitch\<close>, let this difference be the least of the
  table and below 32000, and let \<open>i\<close> be the first index that has it. Then the finder
  returns \<open>i\<close>, the lower of the two.
\<close>

theorem C2_tie_first_wins:
  assumes "length pf = 127" and "sorted pf"
    and "i < j" and "j < 127" and "idiff lo (pf ! i) = idiff lo (pf ! j)"
    and "\<forall>x<127. idiff lo (pf ! i) \<le> idiff lo (pf ! x)"
    and "\<forall>x<i. idiff lo (pf ! i) < idiff lo (pf ! x)"
    and "idiff lo (pf ! i) < 32000"
  shows "map_option fst (findMidiNoteFromPitches pf lo hi) = Some (int i)"
proof -
  have "desiredMidiNote (finder_iter pf lo hi 127) = int i"
    using assms by (intro sorted_scan) auto
  with assms(1) show ?thesis by (simp add: findMidiNoteFromPitches_iter)
qed

text \<open>
  C2 at the scenario table with \<open>lowPitch = 250\<close>: the entries 200 and 300 at the indices 2
  and 3 are both 50 away, and the finder returns 2.
\<close>

theorem C2_witness:
  "sorted scenario_table \<and> idiff 250 (scenario_table ! 2) = 50 \<and>
   idiff 250 (scenario_table ! 3) = 50 \<and>
   map_option fst (findMidiNoteFromPitches scenario_table 250 260) = Some 2"
proof -
  have d: "idiff 250 (scenario_table ! 2) = 50" "idiff 250 (scenario_table ! 3) = 50"
    by (simp_all add: nth_scenario_table idiff_numeral)
  have least: "\<forall>x<127. idiff 250 (scenario_table ! 2) \<le> idiff 250 (scenario_table ! x)"
    unfolding d by (auto simp: nth_scenario_table idiff_real simp del: of_nat_mult; arith)
  have before: "\<forall>x<2. idiff 250 (scenario_table ! 2) < idiff 250 (scenario_table ! x)"
    unfolding d by (auto simp: nth_scenario_table idiff_real simp del: of_nat_mult; arith)
  have "map_option fst (findMidiNoteFromPitches scenario_table 250 260) = Some (int 2)"
    using d by (intro C2_tie_first_wins [where j = 3] length_scenario_table
        sorted_scenario_table least before) simp_all
  with d show ?thesis by (simp add: sorted_scenario_table)
qed

text \<open>
  C2 as stated fails on a table that is not ascending: 50, 60, 50, 50, ..., 50 with
  \<open>lowPitch = 0\<close>. The least difference is 50, first attained at index 0, which is recorded.
  Index 2 has the same difference 50 and replaces it, since it is compared with the
  difference 60 of index 1; the finder returns 2.
\<close>

theorem C2_counterexample:
  "length tie_table = 127 \<and> Min (idiff 0 ` set tie_table) = 50 \<and>
   idiff 0 (tie_table ! 0) = 50 \<and> idiff 0 (tie_table ! 1) = 60 \<and>
   idiff 0 (tie_table ! 2) = 50 \<and>
   map_option fst (findMidiNoteFromPitches tie_table 0 0) = Some 2"
  by (simp add: length_tie_table nth_tie_table idiff_0 tie_table_low_0 tie_table_least)

text \<open>
  Claim C3. Each pass of the loop body stores the current difference in \<open>lastDiff\<close>, whatever
  the comparison said, and records the index exactly when the current difference is below
  the stored one, which is the difference of the index before (32000 at index 0). So for a
  table of at least 127 entries the finder returns the last index whose difference is
  strictly below that of its predecessor, or -1 when there is none. For some table the
  returned index does not attain the least difference.
\<close>

theorem C3_last_decrease:
  "lastDiff (finder_body pf lo hi x s) = idiff lo (pf ! x) \<and>
   desiredMidiNote (finder_body pf lo hi x s) =
     (if idiff lo (pf ! x) < lastDiff s then int x else desiredMidiNote s) \<and>
   (127 \<le> length pf \<longrightarrow>
      (\<exists>r. map_option fst (findMidiNoteFromPitches pf lo hi) = Some r \<and>
        ((r = - 1 \<and> (\<forall>x<127. \<not> recorded pf lo x)) \<or>
         (\<exists>m<127. r = int m \<and> recorded pf lo m \<and>
            (\<forall>x. m < x \<and> x < 127 \<longrightarrow> \<not> recorded pf lo x))))) \<and>
   (\<exists>tbl l h m k. length tbl = 127 \<and>
      map_option fst (findMidiNoteFromPitches tbl l h) = Some (int m) \<and> k < 127 \<and>
      \<bar>of_int l - tbl ! k\<bar> < \<bar>of_int l - tbl ! m\<bar> \<and> idiff l (tbl ! k) < idiff l (tbl ! m))"
proof (intro conjI impI)
  show "lastDiff (finder_body pf lo hi x s) = idiff lo (pf ! x)"
    by (simp add: finder_body_def idiff_def Let_def)
  show "desiredMidiNote (finder_body pf lo hi x s) =
     (if idiff lo (pf ! x) < lastDiff s then int x else desiredMidiNote s)"
    by (simp add: finder_body_def idiff_def Let_def)
next
  assume len: "127 \<le> length pf"
  then have eq: "map_option fst (findMidiNoteFromPitches pf lo hi) = Some (desiredMidiNote (finder_iter pf lo hi 127))"
    by (simp add: findMidiNoteFromPitches_iter)
  from note_iter_cases [of pf lo hi 127]
  show "\<exists>r. map_option fst (findMidiNoteFromPitches pf lo hi) = Some r \<and>
        ((r = - 1 \<and> (\<forall>x<127. \<not> recorded pf lo x)) \<or>
         (\<exists>m<127. r = int m \<and> recorded pf lo m \<and>
            (\<forall>x. m < x \<and> x < 127 \<longrightarrow> \<not> recorded pf lo x)))"
    unfolding eq by blast
next
  have "length dip_table = 127 \<and>
      map_option fst (findMidiNoteFromPitches dip_table 0 0) = Some (int 2) \<and> (0::nat) < 127 \<and>
      \<bar>of_int 0 - dip_table ! 0\<bar> < \<bar>of_int 0 - dip_table ! 2\<bar> \<and>
      idiff 0 (dip_table ! 0) < idiff 0 (dip_table ! 2)"
    by (simp add: length_dip_table dip_table_low_0 nth_dip_table idiff_0)
  then show "\<exists>tbl l h m k. length tbl = 127 \<and>
      map_option fst (findMidiNoteFromPitches tbl l h) = Some (int m) \<and> k < 127 \<and>
      \<bar>of_int l - tbl ! k\<bar> < \<bar>of_int l - tbl ! m\<bar> \<and> idiff l (tbl ! k) < idiff l (tbl ! m)"
    by blast
qed

text \<open>
  C3 at the table 0, 100, 50, 50, ..., 50 with \<open>lowPitch = 0\<close>: indices 0 and 2 are recorded,
  index 1 is not, and the finder returns 2 although entry 0 is at distance 0.
\<close>

theorem C3_witness:
  "127 \<le> length dip_table \<and> recorded dip_table 0 0 \<and> \<not> recorded dip_table 0 1 \<and>
   recorded dip_table 0 2 \<and>
   map_option fst (findMidiNoteFromPitches dip_table 0 0) = Some 2"
proof -
  have len: "127 \<le> length dip_table" by (simp add: length_dip_table)
  have rec: "recorded dip_table 0 0" "\<not> recorded dip_table 0 1" "recorded dip_table 0 2"
    by (simp_all add: recorded_def prevDiff_def nth_dip_table idiff_0)
  have later: "\<not> recorded dip_table 0 x" if "2 < x" "x < 127" for x
    using that by (auto simp: recorded_def prevDiff_def nth_dip_table idiff_0 split: if_splits)
  from C3_last_decrease [of dip_table 0 0 0 finder_init] len
  obtain r where r: "map_option fst (findMidiNoteFromPitches dip_table 0 0) = Some r"
    "(r = - 1 \<and> (\<forall>x<127. \<not> recorded dip_table 0 x)) \<or>
     (\<exists>m<127. r = int m \<and> recorded dip_table 0 m \<and>
        (\<forall>x. m < x \<and> x < 127 \<longrightarrow> \<not> recorded dip_table 0 x))"
    by blast
  from r(2) rec(1) obtain m where m: "m < 127" "r = int m" "recorded dip_table 0 m"
      "\<forall>x. m < x \<and> x < 127 \<longrightarrow> \<not> recorded dip_table 0 x"
    by auto
  have "\<not> m < 2" using m(4) rec(3) by auto
  moreover have "\<not> 2 < m" using later m(1,3) by blast
  ultimately have "m = 2" by simp
  with r(1) m(2) len rec show ?thesis by simp
qed

text \<open>
  Claim C4, amended. For a table of at least 127 entries the finder returns -1 exactly when
  no index is recorded: the integer difference of entry 0 is at least 32000 and no later
  entry has a strictly smaller integer difference than the entry before it. In particular
  the finder does not return -1 when the integer difference of entry 0 is below 32000.
\<close>

theorem C4_minus_one_iff:
  "127 \<le> length pf \<Longrightarrow>
   (map_option fst (findMidiNoteFromPitches pf lo hi) = Some (- 1)) =
   (32000 \<le> idiff lo (pf ! 0) \<and>
    (\<forall>x. 0 < x \<and> x < 127 \<longrightarrow> idiff lo (pf ! (x - 1)) \<le> idiff lo (pf ! x)))"
  by (simp only: finder_minus_one_iff no_record_iff) simp

text \<open>C4 at the scenario table with \<open>lowPitch = 250\<close>: the result is not -1.\<close>

theorem C4_witness:
  "127 \<le> length scenario_table \<and> idiff 250 (scenario_table ! 0) < 32000 \<and>
   map_option fst (findMidiNoteFromPitches scenario_table 250 260) \<noteq> Some (- 1)"
proof -
  have len: "127 \<le> length scenario_table" by (simp add: length_scenario_table)
  have lt: "idiff 250 (scenario_table ! 0) < 32000"
    by (simp add: nth_scenario_table idiff_zero)
  with C4_minus_one_iff [OF len, of 250 260] len show ?thesis by simp
qed

text \<open>
  C4 as stated fails: with the 127 ascending entries of the scenario table and
  \<open>lowPitch = -32000\<close> the differences are 32000, 32100, ..., and the finder returns -1.
\<close>

theorem C4_counterexample:
  "length scenario_table = 127 \<and> sorted scenario_table \<and>
   map_option fst (findMidiNoteFromPitches scenario_table (- 32000) (- 31990)) = Some (- 1)"
  by (simp add: length_scenario_table sorted_scenario_table scenario_low_minus_32000)

text \<open>
  Claim C5. For a table of at least 127 entries and any bounds the finder returns, and the
  value it returns is -1 or lies between 0 and 126.
\<close>

theorem C5_result_range:
  "127 \<le> length pf \<Longrightarrow>
   \<exists>r out. findMidiNoteFromPitches pf lo hi = Some (r, out) \<and> (r = - 1 \<or> (0 \<le> r \<and> r \<le> 126))"
proof -
  assume len: "127 \<le> length pf"
  have "desiredMidiNote (finder_iter pf lo hi 127) = - 1 \<or>
      (0 \<le> desiredMidiNote (finder_iter pf lo hi 127) \<and> desiredMidiNote (finder_iter pf lo hi 127) \<le> 126)"
    using note_iter_cases [of pf lo hi 127] by auto
  with len show ?thesis by (simp add: findMidiNoteFromPitches_iter)
qed

text \<open>C5 at the scenario table with the bounds 250 and 260.\<close>

theorem C5_witness:
  "127 \<le> length scenario_table \<and>
   (\<exists>r out. findMidiNoteFromPitches scenario_table 250 260 = Some (r, out) \<and>
      (r = - 1 \<or> (0 \<le> r \<and> r \<le> 126)))"
proof -
  have len: "127 \<le> length scenario_table" by (simp add: length_scenario_table)
  with C5_result_range [OF len, of 250 260] show ?thesis by simp
qed

text \<open>
  Claim C6. The note returned does not depend on \<open>highPitch\<close>: two calls that differ only in
  \<open>highPitch\<close> return the same note. (What the finder prints does depend on it.)
\<close>

theorem C6_highPitch_ignored:
  "map_option fst (findMidiNoteFromPitches pf lowPitch h1) =
   map_option fst (findMidiNoteFromPitches pf lowPitch h2)"
proof (cases "127 \<le> length pf")
  case True
  then show ?thesis by (simp add: findMidiNoteFromPitches_iter note_iter_hi [of pf lowPitch h1 127 h2])
next
  case False
  then have "finder_loop pf lowPitch h 0 finder_init = None" for h
    by (intro finder_loop_short) simp_all
  then show ?thesis by (simp add: findMidiNoteFromPitches_def)
qed

text \<open>
  Claim C7, amended. For a table of 127 entries the finder returns 126 exactly when the
  integer difference it computes for the last entry is strictly below the one it computes
  for the entry before it, as with \<open>lowPitch = 1000000000\<close> and the scenario table. For an
  ascending table and a \<open>lowPitch\<close> that is not below its last entry, entry 126 is the
  closest entry of the table.
\<close>

theorem C7_last_index:
  "length pf = 127 \<Longrightarrow>
   (map_option fst (findMidiNoteFromPitches pf lo hi) = Some 126) =
     (idiff lo (pf ! 126) < idiff lo (pf ! 125)) \<and>
   (sorted pf \<and> pf ! 126 \<le> of_int lo \<longrightarrow>
      (\<forall>x<127. \<bar>of_int lo - pf ! 126\<bar> \<le> \<bar>of_int lo - pf ! x\<bar>))"
proof (intro conjI impI allI)
  assume len: "length pf = 127"
  show "(map_option fst (findMidiNoteFromPitches pf lo hi) = Some 126) =
     (idiff lo (pf ! 126) < idiff lo (pf ! 125))"
  proof -
    have "recorded pf lo 126 = (idiff lo (pf ! 126) < idiff lo (pf ! 125))"
      by (simp add: recorded_def prevDiff_def)
    with finder_last_iff [OF len, of lo hi] show ?thesis by (simp only:)
  qed
next
  fix x :: nat
  assume len: "length pf = 127" and h: "sorted pf \<and> pf ! 126 \<le> of_int lo" and x: "x < 127"
  from len h x have "pf ! x \<le> pf ! 126" by (simp add: sorted_iff_nth_mono)
  with h show "\<bar>of_int lo - pf ! 126\<bar> \<le> \<bar>of_int lo - pf ! x\<bar>" by simp
qed

text \<open>
  C7 at the scenario table with \<open>lowPitch = 1000000000\<close>: the difference of entry 126 is
  below that of entry 125, and the finder returns 126.
\<close>

theorem C7_witness:
  "length scenario_table = 127 \<and> sorted scenario_table \<and> scenario_table ! 126 \<le> 1000000000 \<and>
   idiff 1000000000 (scenario_table ! 126) < idiff 1000000000 (scenario_table ! 125) \<and>
   map_option fst (findMidiNoteFromPitches scenario_table 1000000000 1000000001) = Some 126"
proof -
  have len: "length scenario_table = 127" by (rule length_scenario_table)
  have d: "idiff 1000000000 (scenario_table ! 126) < idiff 1000000000 (scenario_table ! 125)"
    by (simp add: nth_scenario_table idiff_numeral)
  have "scenario_table ! 126 \<le> 1000000000" by (simp add: nth_scenario_table)
  with C7_last_index [OF len, of 1000000000 1000000001] d len sorted_scenario_table
  show ?thesis by simp
qed

text \<open>
  C7 as stated fails: the table 0, 100, ..., 12400, 12500.25, 12500.5 is strictly ascending
  and far below 1000000000. Its last two entries have the same integer difference
  (999987499 here; with single-precision rounding both become 999987520), and the entry
  before them has a larger one, so index 125 is the last one recorded: the finder returns
  125.
\<close>

theorem C7_counterexample:
  "length close_table = 127 \<and> sorted close_table \<and> close_table ! 126 < 1000000000 \<and>
   close_table ! 125 < close_table ! 126 \<and>
   map_option fst (findMidiNoteFromPitches close_table 1000000000 1000000001) = Some 125"
proof -
  have "sorted close_table"
    by (auto simp: sorted_iff_nth_mono length_close_table nth_close_table)
  then show ?thesis
    by (simp add: length_close_table nth_close_table close_table_low_1e9)
qed

text \<open>
  Claim C8, amended. For a table of at least 127 entries the finder returns after exactly
  the 127 passes of the loop body at the indices 0, ..., 126, starting from the same initial
  state at every call. It does print: every table entry between \<open>lowPitch\<close> and
  \<open>highPitch\<close> goes to the serial port, in table order.
\<close>

theorem C8_fixed_scan:
  "127 \<le> length pf \<Longrightarrow>
   findMidiNoteFromPitches pf lo hi =
     Some (desiredMidiNote (fold (finder_body pf lo hi) [0..<127] finder_init),
           map PrintFloat (filter (\<lambda>p. of_int lo \<le> p \<and> p \<le> of_int hi) (take 127 pf)))"
  by (simp add: findMidiNoteFromPitches_iter serial_iter finder_iter_fold [symmetric])

text \<open>C8 at the scenario table with the bounds 250 and 260: note 2, nothing printed.\<close>

theorem C8_witness:
  "127 \<le> length scenario_table \<and>
   findMidiNoteFromPitches scenario_table 250 260 = Some (2, [])"
proof -
  have len: "127 \<le> length scenario_table" by (simp add: length_scenario_table)
  have "filter (\<lambda>i. (250::int) \<le> int (100 * i) \<and> int (100 * i) \<le> 260) [0..<127] = []"
    by (auto simp: filter_empty_conv; arith)
  then have out: "filter (\<lambda>p. real_of_int 250 \<le> p \<and> p \<le> real_of_int 260) (take 127 scenario_table) = []"
    by (simp add: length_scenario_table scenario_filter del: of_nat_mult of_int_numeral)
  from C8_fixed_scan [OF len, of 250 260] out
  obtain r where "findMidiNoteFromPitches scenario_table 250 260 = Some (r, [])" by simp
  with scenario_low_250 len show ?thesis by simp
qed

text \<open>
  C8 as stated fails: with the scenario table and the bounds 200 and 300 the finder prints
  the entries 200 and 300.
\<close>

theorem C8_counterexample:
  "map_option snd (findMidiNoteFromPitches scenario_table 200 300) =
     Some [PrintFloat 200, PrintFloat 300]"
proof -
  have "[0..<127] = [0..<2] @ [2..<4] @ [4..<127]"
    using upt_add_eq_append [of 0 2 125] upt_add_eq_append [of 2 4 123] by simp
  moreover have "filter (\<lambda>i. (200::int) \<le> int (100 * i) \<and> int (100 * i) \<le> 300) [0..<2] = []"
    by (auto simp: filter_empty_conv; arith)
  moreover have "filter (\<lambda>i. (200::int) \<le> int (100 * i) \<and> int (100 * i) \<le> 300) [4..<127] = []"
    by (auto simp: filter_empty_conv; arith)
  moreover have "[2..<4] = [2, 3]" by (simp add: upt_rec)
  ultimately have "filter (\<lambda>i. (200::int) \<le> int (100 * i) \<and> int (100 * i) \<le> 300) [0..<127] = [2, 3]"
    by simp
  then have "filter (\<lambda>p. real_of_int 200 \<le> p \<and> p \<le> real_of_int 300) (take 127 scenario_table)
      = [200, 300]"
    by (simp add: length_scenario_table scenario_filter del: of_int_numeral)
  then show ?thesis
    using finder_output [of scenario_table 200 300] by (simp add: length_scenario_table)
qed

text \<open>
  Claim C9, amended. The finder's bounds are integers and \<^verbatim>\<open>loop\<close> passes it floating
  band edges, so the fractions of the edges are discarded: for edges \<open>n + f\<close> and
  \<open>n' + f'\<close> with integers \<open>n\<close>, \<open>n'\<close> that are not negative and fractions in [0, 1) the finder
  is called with \<open>n\<close> and \<open>n'\<close>. Each difference is truncated to an integer before the
  comparison: what a pass stores in \<open>lastDiff\<close> is the floor of \<open>\<bar>lowPitch - entry\<bar>\<close>. Two
  entries whose distances to \<open>lowPitch\<close> differ by less than 1 have integer differences
  that differ by at most 1 (they need not be equal). An entry whose integer difference
  equals that of the entry just before it does not replace the candidate.
\<close>

theorem C9_truncation:
  "(threshold < loudestSample s \<and> 0 \<le> n \<and> 0 \<le> f \<and> f < 1 \<and> freqLow s = of_int n + f \<and>
    0 \<le> n' \<and> 0 \<le> f' \<and> f' < 1 \<and> freqHigh s = of_int n' + f'
    \<longrightarrow> report pf s =
         (case findMidiNoteFromPitches pf n n' of
            None \<Rightarrow> None
          | Some (closestNote, printed) \<Rightarrow>
              Some ([PrintFloat (freqLow s), PrintStr '' '', PrintFloat (freqHigh s),
                     PrintStr ''    '', PrintInt (loudestSample s), PrintStr ''    '']
                    @ printed @ [PrintInt closestNote]))) \<and>
   lastDiff (finder_body pf lo hi x st) = \<lfloor>\<bar>of_int lo - pf ! x\<bar>\<rfloor> \<and>
   idiff lo p = \<lfloor>\<bar>of_int lo - p\<bar>\<rfloor> \<and>
   (\<bar>\<bar>of_int lo - p\<bar> - \<bar>of_int lo - q\<bar>\<bar> < 1 \<longrightarrow> \<bar>idiff lo p - idiff lo q\<bar> \<le> 1) \<and>
   (idiff lo (pf ! Suc x) = idiff lo (pf ! x) \<longrightarrow>
      desiredMidiNote (finder_body pf lo hi (Suc x) (finder_body pf lo hi x st)) =
      desiredMidiNote (finder_body pf lo hi x st))"
proof (intro conjI impI)
  assume "threshold < loudestSample s \<and> 0 \<le> n \<and> 0 \<le> f \<and> f < 1 \<and> freqLow s = of_int n + f \<and>
    0 \<le> n' \<and> 0 \<le> f' \<and> f' < 1 \<and> freqHigh s = of_int n' + f'"
  then have "threshold < loudestSample s" "c_trunc (freqLow s) = n" "c_trunc (freqHigh s) = n'"
    by (simp_all add: c_trunc_int_part)
  then show "report pf s =
         (case findMidiNoteFromPitches pf n n' of
            None \<Rightarrow> None
          | Some (closestNote, printed) \<Rightarrow>
              Some ([PrintFloat (freqLow s), PrintStr '' '', PrintFloat (freqHigh s),
                     PrintStr ''    '', PrintInt (loudestSample s), PrintStr ''    '']
                    @ printed @ [PrintInt closestNote]))"
    by (simp add: report_def)
next
  show "lastDiff (finder_body pf lo hi x st) = \<lfloor>\<bar>of_int lo - pf ! x\<bar>\<rfloor>"
    by (simp only: finder_body_lastDiff idiff_floor)
  show "idiff lo p = \<lfloor>\<bar>of_int lo - p\<bar>\<rfloor>" by (rule idiff_floor)
next
  assume "\<bar>\<bar>of_int lo - p\<bar> - \<bar>of_int lo - q\<bar>\<bar> < 1"
  then show "\<bar>idiff lo p - idiff lo q\<bar> \<le> 1" by (rule idiff_close)
next
  assume "idiff lo (pf ! Suc x) = idiff lo (pf ! x)"
  then show "desiredMidiNote (finder_body pf lo hi (Suc x) (finder_body pf lo hi x st)) =
      desiredMidiNote (finder_body pf lo hi x st)"
    by (simp only: finder_body_note [of pf lo hi "Suc x"] finder_body_lastDiff) simp
qed

text \<open>
  C9 at the last band, 4134.375 to 4200 Hz, with the scenario table: the finder is called
  with 4134 and 4200; and at \<open>lowPitch = 250\<close> index 3 (difference 50) does not replace
  index 2 (difference 50).
\<close>

theorem C9_witness:
  "report scenario_table (band_of 200000 63) =
     (case findMidiNoteFromPitches scenario_table 4134 4200 of
        None \<Rightarrow> None
      | Some (closestNote, printed) \<Rightarrow>
          Some ([PrintFloat (33075 / 8), PrintStr '' '', PrintFloat 4200,
                 PrintStr ''    '', PrintInt 200000, PrintStr ''    '']
                @ printed @ [PrintInt closestNote])) \<and>
   \<bar>idiff 10 (89 / 10) - idiff 10 (91 / 10)\<bar> \<le> 1 \<and>
   idiff 250 (scenario_table ! 3) = idiff 250 (scenario_table ! 2) \<and>
   desiredMidiNote (finder_body scenario_table 250 260 3
      (finder_body scenario_table 250 260 2 finder_init)) = 2"
proof -
  note inst = C9_truncation [where s = "band_of 200000 63" and n = 4134 and f = "3 / 8"
      and n' = 4200 and f' = 0 and pf = scenario_table and lo = 250 and hi = 260
      and p = "200" and q = "300" and x = 2 and st = finder_init]
  have h1: "threshold < loudestSample (band_of 200000 63) \<and> (0::int) \<le> 4134 \<and> (0::real) \<le> 3 / 8 \<and>
      (3 / 8 :: real) < 1 \<and> freqLow (band_of 200000 63) = of_int 4134 + 3 / 8 \<and>
      (0::int) \<le> 4200 \<and> (0::real) \<le> 0 \<and> (0::real) < 1 \<and>
      freqHigh (band_of 200000 63) = of_int 4200 + 0"
    by (simp add: band_of_def threshold_def sampleRate_def fftSize_def)
  have fl: "freqLow (band_of 200000 63) = 33075 / 8" "freqHigh (band_of 200000 63) = 4200"
      "loudestSample (band_of 200000 63) = 200000"
    by (simp_all add: band_of_def sampleRate_def fftSize_def)
  from inst h1 have a: "report scenario_table (band_of 200000 63) =
     (case findMidiNoteFromPitches scenario_table 4134 4200 of
        None \<Rightarrow> None
      | Some (closestNote, printed) \<Rightarrow>
          Some ([PrintFloat (33075 / 8), PrintStr '' '', PrintFloat 4200,
                 PrintStr ''    '', PrintInt 200000, PrintStr ''    '']
                @ printed @ [PrintInt closestNote]))"
    unfolding fl by blast
  have "\<bar>\<bar>of_int 10 - (89 / 10 :: real)\<bar> - \<bar>of_int 10 - 91 / 10\<bar>\<bar> < 1" by simp
  with C9_truncation [where s = "band_of 200000 63" and n = 4134 and f = "3 / 8"
      and n' = 4200 and f' = 0 and pf = scenario_table and lo = 10 and hi = 260
      and p = "89 / 10" and q = "91 / 10" and x = 2 and st = finder_init]
  have b: "\<bar>idiff 10 (89 / 10) - idiff 10 (91 / 10)\<bar> \<le> 1"
    by blast
  have e: "idiff 250 (scenario_table ! Suc 2) = idiff 250 (scenario_table ! 2)"
    by (simp add: nth_scenario_table idiff_numeral)
  with inst have "desiredMidiNote (finder_body scenario_table 250 260 (Suc 2)
      (finder_body scenario_table 250 260 2 finder_init)) =
      desiredMidiNote (finder_body scenario_table 250 260 2 finder_init)"
    by blast
  moreover have "desiredMidiNote (finder_body scenario_table 250 260 2 finder_init) = 2"
    by (simp add: finder_body_note finder_init_def nth_scenario_table idiff_numeral)
  moreover have "Suc 2 = 3" by simp
  ultimately have c: "desiredMidiNote (finder_body scenario_table 250 260 3
      (finder_body scenario_table 250 260 2 finder_init)) = 2"
    by simp
  from e have e': "idiff 250 (scenario_table ! 3) = idiff 250 (scenario_table ! 2)" by simp
  from a b e' c show ?thesis by blast
qed

text \<open>
  C9 as stated fails: in the ascending table 8.9, 9.1, 100, 200, ..., 12500 with
  \<open>lowPitch = 10\<close> the first two distances are 1.1 and 0.9, less than 1 apart, yet the
  integer differences are 1 and 0, and index 1 replaces index 0 as the candidate.
\<close>

theorem C9_counterexample:
  "\<bar>\<bar>10 - near_table ! 0\<bar> - \<bar>10 - near_table ! 1\<bar>\<bar> < 1 \<and>
   idiff 10 (near_table ! 0) = 1 \<and> idiff 10 (near_table ! 1) = 0 \<and>
   desiredMidiNote (finder_body near_table 10 11 0 finder_init) = 0 \<and>
   desiredMidiNote (finder_body near_table 10 11 1 (finder_body near_table 10 11 0 finder_init)) = 1 \<and>
   map_option fst (findMidiNoteFromPitches near_table 10 11) = Some 1"
proof -
  have n: "near_table ! 0 = 89 / 10" "near_table ! 1 = 91 / 10"
    by (simp_all add: nth_near_table)
  have "\<bar>\<bar>10 - (89 / 10 :: real)\<bar> - \<bar>10 - 91 / 10\<bar>\<bar> < 1" by simp
  moreover have "desiredMidiNote (finder_body near_table 10 11 0 finder_init) = 0"
    by (simp only: finder_body_note n idiff_half) (simp add: finder_init_def)
  moreover have "desiredMidiNote (finder_body near_table 10 11 1 (finder_body near_table 10 11 0 finder_init)) = 1"
    by (simp only: finder_body_note [of near_table 10 11 1] finder_body_lastDiff n idiff_half) simp
  ultimately show ?thesis
    unfolding n by (simp only: idiff_half near_table_low_10)
qed

text \<open>
  Claim C10, amended. The band scan compares with \<open>\<ge>\<close>: when the largest amplitude \<open>M\<close> of
  the 64 bands is not negative and \<open>b\<close> is the highest index that holds it, the scan ends
  with the amplitude \<open>M\<close> and the edges \<open>b * 8400 / 128\<close> and \<open>(b + 1) * 8400 / 128\<close> of band
  \<open>b\<close>. When \<open>M\<close> is above the threshold, \<^verbatim>\<open>loop\<close> prints these edges and \<open>M\<close>, calls the
  finder with the edges converted to \<^verbatim>\<open>int\<close> and prints its note; otherwise it prints
  nothing and does not call the finder. For an all-zero spectrum the scan ends with the
  last band, index \<open>spectrumSize - 1\<close>, and nothing is reported.
\<close>

theorem C10_last_loudest_band:
  "(spectrumSize \<le> length spectrum \<and> b < spectrumSize \<and> spectrum ! b = M \<and> 0 \<le> M \<and>
    (\<forall>i<spectrumSize. spectrum ! i \<le> M) \<and> (\<forall>i. b < i \<and> i < spectrumSize \<longrightarrow> spectrum ! i < M)
    \<longrightarrow> band_loop spectrum 0 band_init =
          Some \<lparr>loudestSample = M, freqLow = real b * 8400 / 128,
                freqHigh = real (b + 1) * 8400 / 128\<rparr> \<and>
        loop pf True spectrum =
          (if threshold < M then
             (case findMidiNoteFromPitches pf (c_trunc (real b * 8400 / 128))
                     (c_trunc (real (b + 1) * 8400 / 128)) of
                None \<Rightarrow> None
              | Some (closestNote, printed) \<Rightarrow>
                  Some ([PrintFloat (real b * 8400 / 128), PrintStr '' '',
                         PrintFloat (real (b + 1) * 8400 / 128), PrintStr ''    '',
                         PrintInt M, PrintStr ''    '']
                        @ printed @ [PrintInt closestNote]))
           else Some [])) \<and>
   band_loop (replicate spectrumSize 0) 0 band_init =
     Some \<lparr>loudestSample = 0, freqLow = real (spectrumSize - 1) * 8400 / 128,
           freqHigh = real spectrumSize * 8400 / 128\<rparr> \<and>
   loop pf True (replicate spectrumSize 0) = Some []"
proof (intro conjI impI)
  assume h: "spectrumSize \<le> length spectrum \<and> b < spectrumSize \<and> spectrum ! b = M \<and> 0 \<le> M \<and>
    (\<forall>i<spectrumSize. spectrum ! i \<le> M) \<and> (\<forall>i. b < i \<and> i < spectrumSize \<longrightarrow> spectrum ! i < M)"
  then have scan: "band_loop spectrum 0 band_init = Some (band_of M b)"
    by (intro band_scan_last_max) simp_all
  then show "band_loop spectrum 0 band_init =
          Some \<lparr>loudestSample = M, freqLow = real b * 8400 / 128,
                freqHigh = real (b + 1) * 8400 / 128\<rparr>"
    by (simp only: band_of_edges)
  show "loop pf True spectrum =
          (if threshold < M then
             (case findMidiNoteFromPitches pf (c_trunc (real b * 8400 / 128))
                     (c_trunc (real (b + 1) * 8400 / 128)) of
                None \<Rightarrow> None
              | Some (closestNote, printed) \<Rightarrow>
                  Some ([PrintFloat (real b * 8400 / 128), PrintStr '' '',
                         PrintFloat (real (b + 1) * 8400 / 128), PrintStr ''    '',
                         PrintInt M, PrintStr ''    '']
                        @ printed @ [PrintInt closestNote]))
           else Some [])"
    by (simp add: loop_def scan report_def band_of_edges split: option.split)
next
  have "spectrumSize - 1 + 1 = spectrumSize" by (simp add: spectrumSize_64)
  then show "band_loop (replicate spectrumSize 0) 0 band_init =
     Some \<lparr>loudestSample = 0, freqLow = real (spectrumSize - 1) * 8400 / 128,
           freqHigh = real spectrumSize * 8400 / 128\<rparr>"
    by (simp only: zero_spectrum_scan band_of_edges)
  show "loop pf True (replicate spectrumSize 0) = Some []"
    by (rule zero_spectrum_loop)
qed

text \<open>
  C10 at a spectrum that is 200000 in the bands 5 and 9 and 0 elsewhere, with the scenario
  table: the scan ends with band 9, from 590.625 to 656.25 Hz, the finder is called with 590
  and 656, prints the entry 600 and returns note 6.
\<close>

theorem C10_witness:
  "tied_spectrum ! 5 = 200000 \<and> tied_spectrum ! 9 = 200000 \<and>
   band_loop tied_spectrum 0 band_init =
     Some \<lparr>loudestSample = 200000, freqLow = 4725 / 8, freqHigh = 2625 / 4\<rparr> \<and>
   loop scenario_table True tied_spectrum =
     Some [PrintFloat (4725 / 8), PrintStr '' '', PrintFloat (2625 / 4), PrintStr ''    '',
           PrintInt 200000, PrintStr ''    '', PrintFloat 600, PrintInt 6]"
proof -
  have h: "spectrumSize \<le> length tied_spectrum \<and> 9 < spectrumSize \<and> tied_spectrum ! 9 = 200000 \<and>
      (0::int) \<le> 200000 \<and> (\<forall>i<spectrumSize. tied_spectrum ! i \<le> 200000) \<and>
      (\<forall>i. 9 < i \<and> i < spectrumSize \<longrightarrow> tied_spectrum ! i < 200000)"
    by (auto simp: tied_spectrum_def spectrumSize_64 nth_list_update)
  have e: "real 9 * 8400 / 128 = 4725 / 8" "real (9 + 1) * 8400 / 128 = 2625 / 4"
    by simp_all
  have t: "c_trunc (4725 / 8) = 590" "c_trunc (2625 / 4) = 656"
    by (simp_all add: c_trunc_def)
  from C10_last_loudest_band [of tied_spectrum 9 200000 scenario_table] h
  have "band_loop tied_spectrum 0 band_init =
          Some \<lparr>loudestSample = 200000, freqLow = real 9 * 8400 / 128,
                freqHigh = real (9 + 1) * 8400 / 128\<rparr>"
    and "loop scenario_table True tied_spectrum =
          (if threshold < 200000 then
             (case findMidiNoteFromPitches scenario_table (c_trunc (real 9 * 8400 / 128))
                     (c_trunc (real (9 + 1) * 8400 / 128)) of
                None \<Rightarrow> None
              | Some (closestNote, printed) \<Rightarrow>
                  Some ([PrintFloat (real 9 * 8400 / 128), PrintStr '' '',
                         PrintFloat (real (9 + 1) * 8400 / 128), PrintStr ''    '',
                         PrintInt 200000, PrintStr ''    '']
                        @ printed @ [PrintInt closestNote]))
           else Some [])"
    by blast+
  then have "band_loop tied_spectrum 0 band_init =
      Some \<lparr>loudestSample = 200000, freqLow = 4725 / 8, freqHigh = 2625 / 4\<rparr>"
    and "loop scenario_table True tied_spectrum =
     Some [PrintFloat (4725 / 8), PrintStr '' '', PrintFloat (2625 / 4), PrintStr ''    '',
           PrintInt 200000, PrintStr ''    '', PrintFloat 600, PrintInt 6]"
    unfolding e t by (simp_all add: scenario_low_590 threshold_def)
  then show ?thesis by (simp add: tied_spectrum_def)
qed

text \<open>
  C10 as stated fails in its last part: for the all-zero spectrum the scan ends with the
  last band, 4134.375 to 4200 Hz, but the loudest sample 0 is not above the threshold, so
  \<^verbatim>\<open>loop\<close> reports no band at all.
\<close>

theorem C10_counterexample:
  "band_loop (replicate spectrumSize 0) 0 band_init =
     Some \<lparr>loudestSample = 0, freqLow = 33075 / 8, freqHigh = 4200\<rparr> \<and>
   report scenario_table \<lparr>loudestSample = 0, freqLow = 33075 / 8, freqHigh = 4200\<rparr> = Some [] \<and>
   loop scenario_table True (replicate spectrumSize 0) = Some []"
proof -
  have "band_of 0 (spectrumSize - 1) = \<lparr>loudestSample = 0, freqLow = 33075 / 8, freqHigh = 4200\<rparr>"
    by (simp add: band_of_edges spectrumSize_64)
  then show ?thesis
    using zero_spectrum_scan zero_spectrum_loop [of scenario_table]
    by (simp add: report_def threshold_def)
qed

end
